theory Spec2Isabelle
  imports Complex_Main
begin

section \<open>Shared conventions\<close>

text \<open>
  Go's \<^verbatim>\<open>error\<close> values are modelled by their message text, \<^verbatim>\<open>fmt.Errorf("p: %w", err)\<close>
  by concatenation. \<^verbatim>\<open>time.Time\<close> is an integer instant; a nullable column or pointer is
  an \<open>option\<close>. Go's \<^verbatim>\<open>int\<close>/\<^verbatim>\<open>int64\<close> counters and ids are unbounded integers: no
  counter of this program comes near \<open>2^63\<close>.
\<close>

type_synonym error = string
type_synonym time = int

text \<open>A call either returns or panics (a slice bound out of range).\<close>

datatype 'a ret = Ret 'a | Panic

text \<open>The verb \<^verbatim>\<open>%d\<close> of \<^verbatim>\<open>fmt\<close>: decimal digits, with a minus sign below zero.\<close>

fun show_nat :: "nat \<Rightarrow> string" where
  "show_nat n =
     (if n < 10 then [''0123456789'' ! n]
      else show_nat (n div 10) @ [''0123456789'' ! (n mod 10)])"

declare show_nat.simps [simp del]

definition show_int :: "int \<Rightarrow> string" where
  "show_int i = (if i < 0 then ''-'' @ show_nat (nat (- i)) else show_nat (nat i))"

text \<open>
  The slice expression \<^verbatim>\<open>s[:n]\<close> on a Go string: the first \<open>n\<close> bytes, and a panic
  when \<open>n\<close> is negative or beyond \<^verbatim>\<open>len(s)\<close>.
\<close>

definition slice_to :: "string \<Rightarrow> int \<Rightarrow> string option" where
  "slice_to s n =
     (if 0 \<le> n \<and> n \<le> int (length s) then Some (take (nat n) s) else None)"

section \<open>Domain (internal/domain/message.go)\<close>

datatype MessageStatus = StatusPending | StatusSent | StatusFailed

record Message =
  ID :: int
  Content :: string
  PhoneNumber :: string
  Status :: MessageStatus
  MessageID :: "string option"
  SentAt :: "time option"
  CreatedAt :: time
  UpdatedAt :: time

record SentMessageCache =
  cache_MessageID :: string
  cache_SentAt :: time

record WebhookResponse =
  resp_Message :: string
  resp_MessageID :: string

record SendResult =
  MessageDBID :: int
  res_MessageID :: string
  Success :: bool
  Error :: "error option"
  res_SentAt :: time

record MessageConfig =
  BatchSize :: int
  SendInterval :: int
  MaxContentLength :: int

section \<open>The messages table and its repository (internal/repository/message_repository.go)\<close>

text \<open>
  The table \<^verbatim>\<open>messages\<close> of the migration: its rows in insertion order and the
  \<^verbatim>\<open>AUTO_INCREMENT\<close> counter that gives the primary key of the next inserted row.
\<close>

record table =
  rows :: "Message list"
  AUTO_INCREMENT :: int

text \<open>
  What the SQL driver does with one statement is an input of the model: the statement
  runs (\<open>DriverOk\<close>), the call itself returns an error and nothing is executed
  (\<open>ExecError\<close>), or it runs and reading \<^verbatim>\<open>RowsAffected\<close>/\<^verbatim>\<open>LastInsertId\<close> from the
  result returns an error (\<open>ResultError\<close>). \<open>current_timestamp\<close> is the server's
  \<^verbatim>\<open>CURRENT_TIMESTAMP\<close> for the statement.
\<close>

datatype driver = DriverOk | ExecError error | ResultError error

record sql_env =
  driver :: driver
  current_timestamp :: time

text \<open>
  \<^verbatim>\<open>UPDATE messages SET ... WHERE ...\<close>: every row matching \<open>P\<close> is rewritten by
  \<open>f\<close>; the affected-row count of MySQL (the connection does not ask for found rows)
  is the number of rows whose value changed.
\<close>

definition update_where ::
  "(Message \<Rightarrow> bool) \<Rightarrow> (Message \<Rightarrow> Message) \<Rightarrow> Message list \<Rightarrow> Message list \<times> int" where
  "update_where P f ms =
     (map (\<lambda>m. if P m then f m else m) ms,
      int (length (filter (\<lambda>m. P m \<and> f m \<noteq> m) ms)))"

text \<open>
  The batch query: the pending rows, oldest first (rows of equal \<^verbatim>\<open>created_at\<close> in
  insertion order), at most \<open>limit\<close> of them. MySQL refuses a negative \<^verbatim>\<open>LIMIT\<close>
  parameter.
\<close>

definition GetUnsent :: "sql_env \<Rightarrow> table \<Rightarrow> int \<Rightarrow> error + Message list" where
  "GetUnsent env t limit =
     (case driver env of
        ExecError e \<Rightarrow> Inl (''failed to get unsent messages: '' @ e)
      | _ \<Rightarrow>
          if limit < 0
          then Inl (''failed to get unsent messages: Incorrect arguments to mysqld_stmt_execute'')
          else Inr (take (nat limit)
                 (sort_key CreatedAt (filter (\<lambda>m. Status m = StatusPending) (rows t)))))"

definition MarkAsSent ::
  "sql_env \<Rightarrow> table \<Rightarrow> int \<Rightarrow> string \<Rightarrow> time \<Rightarrow> error option \<times> table" where
  "MarkAsSent env t i messageID sentAt =
     (case driver env of
        ExecError e \<Rightarrow> (Some (''failed to mark message as sent: '' @ e), t)
      | d \<Rightarrow>
          (let (ms, n) = update_where (\<lambda>m. ID m = i)
                 (\<lambda>m. m\<lparr>Status := StatusSent, MessageID := Some messageID,
                        SentAt := Some sentAt, UpdatedAt := current_timestamp env\<rparr>) (rows t);
               t' = t\<lparr>rows := ms\<rparr>
           in case d of
                ResultError e \<Rightarrow> (Some (''failed to get affected rows: '' @ e), t')
              | _ \<Rightarrow>
                  if n = 0 then (Some (''no message found with id '' @ show_int i), t')
                  else (None, t')))"

definition MarkAsFailed :: "sql_env \<Rightarrow> table \<Rightarrow> int \<Rightarrow> error option \<times> table" where
  "MarkAsFailed env t i =
     (case driver env of
        ExecError e \<Rightarrow> (Some (''failed to mark message as failed: '' @ e), t)
      | _ \<Rightarrow>
          (None, t\<lparr>rows := fst (update_where (\<lambda>m. ID m = i)
                 (\<lambda>m. m\<lparr>Status := StatusFailed, UpdatedAt := current_timestamp env\<rparr>)
                 (rows t))\<rparr>))"

definition GetByID :: "sql_env \<Rightarrow> table \<Rightarrow> int \<Rightarrow> error + Message option" where
  "GetByID env t i =
     (case driver env of
        ExecError e \<Rightarrow> Inl (''failed to get message: '' @ e)
      | _ \<Rightarrow> Inr (find (\<lambda>m. ID m = i) (rows t)))"

definition Create ::
  "sql_env \<Rightarrow> sql_env \<Rightarrow> table \<Rightarrow> string \<Rightarrow> string \<Rightarrow> (error + Message option) \<times> table" where
  "Create env env2 t content phoneNumber =
     (case driver env of
        ExecError e \<Rightarrow> (Inl (''failed to create message: '' @ e), t)
      | d \<Rightarrow>
          (let i = AUTO_INCREMENT t;
               t' = \<lparr>rows = rows t @
                      [\<lparr>ID = i, Content = content, PhoneNumber = phoneNumber,
                        Status = StatusPending, MessageID = None, SentAt = None,
                        CreatedAt = current_timestamp env,
                        UpdatedAt = current_timestamp env\<rparr>],
                     AUTO_INCREMENT = i + 1\<rparr>
           in case d of
                ResultError e \<Rightarrow> (Inl (''failed to get last insert id: '' @ e), t')
              | _ \<Rightarrow> (GetByID env2 t' i, t')))"

definition ReplayFailedByID :: "sql_env \<Rightarrow> table \<Rightarrow> int \<Rightarrow> error option \<times> table" where
  "ReplayFailedByID env t i =
     (case driver env of
        ExecError e \<Rightarrow> (Some (''failed to replay failed message: '' @ e), t)
      | d \<Rightarrow>
          (let (ms, n) = update_where (\<lambda>m. ID m = i \<and> Status m = StatusFailed)
                 (\<lambda>m. m\<lparr>Status := StatusPending, MessageID := None, SentAt := None,
                        UpdatedAt := current_timestamp env\<rparr>) (rows t);
               t' = t\<lparr>rows := ms\<rparr>
           in case d of
                ResultError e \<Rightarrow> (Some (''failed to get affected rows: '' @ e), t')
              | _ \<Rightarrow>
                  if n = 0 then (Some (''no failed message found with id '' @ show_int i), t')
                  else (None, t')))"

definition ReplayAllFailed :: "sql_env \<Rightarrow> table \<Rightarrow> (error + int) \<times> table" where
  "ReplayAllFailed env t =
     (case driver env of
        ExecError e \<Rightarrow> (Inl (''failed to replay failed messages: '' @ e), t)
      | d \<Rightarrow>
          (let (ms, n) = update_where (\<lambda>m. Status m = StatusFailed)
                 (\<lambda>m. m\<lparr>Status := StatusPending, MessageID := None, SentAt := None,
                        UpdatedAt := current_timestamp env\<rparr>) (rows t);
               t' = t\<lparr>rows := ms\<rparr>
           in case d of
                ResultError e \<Rightarrow> (Inl (''failed to get affected rows: '' @ e), t')
              | _ \<Rightarrow> (Inr n, t')))"

section \<open>The message service (internal/service/message_service.go)\<close>

text \<open>
  The service's collaborators live in one world: the table behind the repository, the
  Redis keys \<^verbatim>\<open>sent_message:<id>\<close> (their 24 hour expiry is not modelled), and a log of
  the calls the service makes, each repository call with the error it returned.
\<close>

datatype call =
    CallDeliverMessage int
  | CallSendMessage string string
  | CallMarkAsSent int string time "error option"
  | CallMarkAsFailed int "error option"
  | CallCacheSentMessage int string time
  | CallCreate string string

record world =
  db :: table
  redis :: "int \<rightharpoonup> SentMessageCache"
  calls :: "call list"

record MessageService =
  config :: MessageConfig
  redisClient :: bool

text \<open>
  The inputs of one delivery that the program does not control: the value drawn by
  \<^verbatim>\<open>rand.Float64()\<close>, the clock, what the webhook client returns, the driver's
  behaviour for the status update, and the error (if any) of the cache write.
\<close>

record deliver_env =
  draw :: real
  now :: time
  reply :: "error + WebhookResponse"
  mark :: sql_env
  cache_error :: "error option"

definition repo_MarkAsSent ::
  "sql_env \<Rightarrow> world \<Rightarrow> int \<Rightarrow> string \<Rightarrow> time \<Rightarrow> error option \<times> world" where
  "repo_MarkAsSent env w i messageID sentAt =
     (let (err, t) = MarkAsSent env (db w) i messageID sentAt
      in (err, w\<lparr>db := t, calls := calls w @ [CallMarkAsSent i messageID sentAt err]\<rparr>))"

definition repo_MarkAsFailed :: "sql_env \<Rightarrow> world \<Rightarrow> int \<Rightarrow> error option \<times> world" where
  "repo_MarkAsFailed env w i =
     (let (err, t) = MarkAsFailed env (db w) i
      in (err, w\<lparr>db := t, calls := calls w @ [CallMarkAsFailed i err]\<rparr>))"

definition repo_Create ::
  "sql_env \<Rightarrow> sql_env \<Rightarrow> world \<Rightarrow> string \<Rightarrow> string \<Rightarrow> (error + Message option) \<times> world" where
  "repo_Create env env2 w content phoneNumber =
     (let (r, t) = Create env env2 (db w) content phoneNumber
      in (r, w\<lparr>db := t, calls := calls w @ [CallCreate content phoneNumber]\<rparr>))"

text \<open>\<^verbatim>\<open>webhookClient.SendMessage\<close>: the call is logged, its result is \<open>reply\<close>.\<close>

definition SendMessage ::
  "deliver_env \<Rightarrow> world \<Rightarrow> string \<Rightarrow> string \<Rightarrow> (error + WebhookResponse) \<times> world" where
  "SendMessage env w phoneNumber content =
     (reply env, w\<lparr>calls := calls w @ [CallSendMessage phoneNumber content]\<rparr>)"

text \<open>\<^verbatim>\<open>redis.Client.CacheSentMessage\<close>: on success the key holds the new entry.\<close>

definition CacheSentMessage ::
  "deliver_env \<Rightarrow> world \<Rightarrow> int \<Rightarrow> string \<Rightarrow> time \<Rightarrow> error option \<times> world" where
  "CacheSentMessage env w dbID messageID sentAt =
     (let w1 = w\<lparr>calls := calls w @ [CallCacheSentMessage dbID messageID sentAt]\<rparr>
      in case cache_error env of
           Some e \<Rightarrow> (Some (''failed to cache sent message: '' @ e), w1)
         | None \<Rightarrow>
             (None, w1\<lparr>redis := (redis w1)(dbID \<mapsto>
                \<lparr>cache_MessageID = messageID, cache_SentAt = sentAt\<rparr>)\<rparr>))"

text \<open>
  The content policy of \<^verbatim>\<open>deliverMessage\<close> (the block "Enforce max content length"):
  the content the in-flight copy holds afterwards, or \<open>None\<close> when a slice panics.
\<close>

definition enforce_max_content_length :: "int \<Rightarrow> string \<Rightarrow> string option" where
  "enforce_max_content_length maxLen content =
     (if int (length content) > maxLen then
        (let ellipsis = ''...'' in
         if maxLen > int (length ellipsis)
         then map_option (\<lambda>p. p @ ellipsis)
                (slice_to content (maxLen - int (length ellipsis)))
         else slice_to content maxLen)
      else Some content)"

definition deliverMessage ::
  "MessageService \<Rightarrow> deliver_env \<Rightarrow> world \<Rightarrow> Message \<Rightarrow> bool \<Rightarrow> SendResult ret \<times> world" where
  "deliverMessage s env w msg shouldFailAll =
     (let result = \<lparr>MessageDBID = ID msg, res_MessageID = [], Success = False,
                     Error = None, res_SentAt = now env\<rparr>;
          w0 = w\<lparr>calls := calls w @ [CallDeliverMessage (ID msg)]\<rparr>
      in if shouldFailAll then
           (let (markErr, w1) = repo_MarkAsFailed (mark env) w0 (ID msg)
            in (Ret (result\<lparr>Success := False,
                            Error := Some ''simulated failure for testing''\<rparr>), w1))
         else
           (case enforce_max_content_length (MaxContentLength (config s)) (Content msg) of
              None \<Rightarrow> (Panic, w0)
            | Some content \<Rightarrow>
                (let (r, w1) = SendMessage env w0 (PhoneNumber msg) content
                 in case r of
                      Inl err \<Rightarrow>
                        (let (markErr, w2) = repo_MarkAsFailed (mark env) w1 (ID msg)
                         in (Ret (result\<lparr>Success := False, Error := Some err\<rparr>), w2))
                    | Inr resp \<Rightarrow>
                        (let (err, w2) = repo_MarkAsSent (mark env) w1 (ID msg)
                                           (resp_MessageID resp) (res_SentAt result)
                         in case err of
                              Some e \<Rightarrow> (Ret (result\<lparr>Success := False, Error := Some e\<rparr>), w2)
                            | None \<Rightarrow>
                                (let w3 = (if redisClient s
                                           then snd (CacheSentMessage env w2 (ID msg)
                                                  (resp_MessageID resp) (res_SentAt result))
                                           else w2)
                                 in (Ret (result\<lparr>Success := True,
                                            res_MessageID := resp_MessageID resp\<rparr>), w3))))))"

text \<open>
  One iteration of the loop of \<^verbatim>\<open>ProcessUnsentMessages\<close>: the draw decides the forced
  failure, then the message is delivered.
\<close>

definition deliver ::
  "MessageService \<Rightarrow> deliver_env \<Rightarrow> world \<Rightarrow> Message \<Rightarrow> real \<Rightarrow> SendResult ret \<times> world" where
  "deliver s env w msg failureRate =
     (let shouldFail = draw env < failureRate in deliverMessage s env w msg shouldFail)"

text \<open>The loop over the batch; message \<open>k\<close> of the batch meets the inputs \<open>envs k\<close>.\<close>

fun deliver_batch ::
  "MessageService \<Rightarrow> (nat \<Rightarrow> deliver_env) \<Rightarrow> real \<Rightarrow> Message list \<Rightarrow> world
     \<Rightarrow> SendResult list ret \<times> world" where
  "deliver_batch s envs failureRate [] w = (Ret [], w)"
| "deliver_batch s envs failureRate (msg # msgs) w =
     (case deliver s (envs 0) w msg failureRate of
        (Panic, w1) \<Rightarrow> (Panic, w1)
      | (Ret result, w1) \<Rightarrow>
          (case deliver_batch s (\<lambda>k. envs (Suc k)) failureRate msgs w1 of
             (Panic, w2) \<Rightarrow> (Panic, w2)
           | (Ret results, w2) \<Rightarrow> (Ret (result # results), w2)))"

text \<open>The inputs of one pass: the driver's behaviour for the batch query, and the deliveries'.\<close>

record pass_env =
  fetch :: sql_env
  deliveries :: "nat \<Rightarrow> deliver_env"

text \<open>
  \<^verbatim>\<open>ProcessUnsentMessages\<close> returns \<^verbatim>\<open>(results, err)\<close>: \<open>Inl err\<close>, or \<open>Inr\<close> of the
  results, where \<open>None\<close> is the nil slice.
\<close>

definition ProcessUnsentMessages ::
  "MessageService \<Rightarrow> pass_env \<Rightarrow> world \<Rightarrow> real
     \<Rightarrow> (error + SendResult list option) ret \<times> world" where
  "ProcessUnsentMessages s env w failureRate =
     (case GetUnsent (fetch env) (db w) (BatchSize (config s)) of
        Inl err \<Rightarrow> (Ret (Inl (''failed to get unsent messages: '' @ err)), w)
      | Inr messages \<Rightarrow>
          if length messages = 0 then (Ret (Inr None), w)
          else
            (case deliver_batch s (deliveries env) failureRate messages w of
               (Panic, w1) \<Rightarrow> (Panic, w1)
             | (Ret results, w1) \<Rightarrow> (Ret (Inr (Some results)), w1)))"

definition CreateMessage ::
  "MessageService \<Rightarrow> sql_env \<Rightarrow> sql_env \<Rightarrow> world \<Rightarrow> string \<Rightarrow> string
     \<Rightarrow> (error + Message option) \<times> world" where
  "CreateMessage s env env2 w content phoneNumber =
     (if int (length content) > MaxContentLength (config s)
      then (Inl (''content exceeds maximum length of ''
                  @ show_int (MaxContentLength (config s)) @ '' characters''), w)
      else repo_Create env env2 w content phoneNumber)"

definition ReplayFailedMessage :: "sql_env \<Rightarrow> world \<Rightarrow> int \<Rightarrow> error option \<times> world" where
  "ReplayFailedMessage env w i =
     (let (err, t) = ReplayFailedByID env (db w) i in (err, w\<lparr>db := t\<rparr>))"

definition ReplayAllFailedMessages :: "sql_env \<Rightarrow> world \<Rightarrow> (error + int) \<times> world" where
  "ReplayAllFailedMessages env w =
     (let (r, t) = ReplayAllFailed env (db w) in (r, w\<lparr>db := t\<rparr>))"

text \<open>
  The public operations on messages, with the inputs each one meets. \<open>OpDeliver\<close> is one
  delivery of a stored message outside a batch; it is admissible on a message that the
  table holds as Pending.
\<close>

datatype op =
    OpCreateMessage string string sql_env sql_env
  | OpProcessUnsentMessages real pass_env
  | OpDeliver Message real deliver_env
  | OpReplayFailedMessage int sql_env
  | OpReplayAllFailedMessages sql_env

fun apply_op :: "MessageService \<Rightarrow> op \<Rightarrow> world \<Rightarrow> world" where
  "apply_op s (OpCreateMessage content phoneNumber env env2) w =
     snd (CreateMessage s env env2 w content phoneNumber)"
| "apply_op s (OpProcessUnsentMessages failureRate env) w =
     snd (ProcessUnsentMessages s env w failureRate)"
| "apply_op s (OpDeliver msg failureRate env) w = snd (deliver s env w msg failureRate)"
| "apply_op s (OpReplayFailedMessage i env) w = snd (ReplayFailedMessage env w i)"
| "apply_op s (OpReplayAllFailedMessages env) w = snd (ReplayAllFailedMessages env w)"

fun admissible :: "op \<Rightarrow> world \<Rightarrow> bool" where
  "admissible (OpDeliver msg failureRate env) w =
     (msg \<in> set (rows (db w)) \<and> Status msg = StatusPending)"
| "admissible _ w = True"

fun run :: "MessageService \<Rightarrow> op list \<Rightarrow> world \<Rightarrow> world" where
  "run s [] w = w"
| "run s (x # xs) w = run s xs (apply_op s x w)"

fun admissible_run :: "MessageService \<Rightarrow> op list \<Rightarrow> world \<Rightarrow> bool" where
  "admissible_run s [] w = True"
| "admissible_run s (x # xs) w = (admissible x w \<and> admissible_run s xs (apply_op s x w))"

text \<open>The world after the migration: an empty table, an empty cache, no call made.\<close>

definition fresh_world :: world where
  "fresh_world = \<lparr>db = \<lparr>rows = [], AUTO_INCREMENT = 1\<rparr>, redis = Map.empty, calls = []\<rparr>"

section \<open>The scheduler (internal/scheduler/scheduler.go)\<close>

text \<open>
  The fields of \<^verbatim>\<open>Scheduler\<close> that hold data; the mutex and the two channels are
  left out, every operation below being one atomic step. Durations are nanoseconds,
  the zero \<^verbatim>\<open>time.Time\<close> is \<open>0\<close>.
\<close>

record Scheduler =
  interval :: int
  failureRate :: real
  alertWebhook :: string
  alertThreshold :: int
  lastAlertSentAt :: time
  running :: bool
  lastRunAt :: time
  messagesSent :: int
  runsCount :: int
  consecutiveAllFailCount :: int

definition Minute :: int where
  "Minute = 60 * 1000000000"

definition NewScheduler :: "int \<Rightarrow> Scheduler" where
  "NewScheduler d =
     \<lparr>interval = d, failureRate = 0, alertWebhook = [], alertThreshold = 0,
      lastAlertSentAt = 0, running = False, lastRunAt = 0, messagesSent = 0,
      runsCount = 0, consecutiveAllFailCount = 0\<rparr>"

text \<open>
  \<^verbatim>\<open>Start\<close> returns the scheduler and whether it launched the loop
  (\<^verbatim>\<open>go s.run(ctx)\<close>); its error result is always nil.
\<close>

definition Start :: "Scheduler \<Rightarrow> Scheduler \<times> bool" where
  "Start s = (if running s then (s, False) else (s\<lparr>running := True\<rparr>, True))"

definition StartWithParams ::
  "Scheduler \<Rightarrow> int \<Rightarrow> real \<Rightarrow> string \<Rightarrow> int \<Rightarrow> Scheduler \<times> bool" where
  "StartWithParams s intervalMinutes rate webhook threshold =
     (let intervalMinutes = (if intervalMinutes \<le> 0 then 120 else intervalMinutes)
      in Start (s\<lparr>interval := intervalMinutes * Minute, failureRate := rate,
                  alertWebhook := webhook, alertThreshold := threshold,
                  consecutiveAllFailCount := 0\<rparr>))"

definition Stop :: "Scheduler \<Rightarrow> Scheduler" where
  "Stop s = (if \<not> running s then s else s\<lparr>running := False\<rparr>)"

text \<open>The arguments of one \<^verbatim>\<open>go s.sendAlert(...)\<close>.\<close>

record alert =
  webhookURL :: string
  runNumber :: int
  consecutiveFailures :: int
  messagesInBatch :: int

text \<open>The counting loop of \<^verbatim>\<open>processMessages\<close> over \<open>(successCount, allFailed)\<close>.\<close>

fun count_results :: "SendResult list \<Rightarrow> int \<times> bool \<Rightarrow> int \<times> bool" where
  "count_results [] acc = acc"
| "count_results (r # rs) (successCount, allFailed) =
     count_results rs
       (if Success r then (successCount + 1, False) else (successCount, allFailed))"

text \<open>
  One pass. \<open>process\<close> is the \<^verbatim>\<open>messageProcessor\<close> the scheduler was built with, acting on
  a world of its own; \<open>t\<close> is the clock at the start of the pass. The pass returns the
  scheduler and the alert it launched, if any; a panic of the processor ends the pass
  (and the process) with no scheduler left.
\<close>

definition processMessages ::
  "('w \<Rightarrow> real \<Rightarrow> (error + SendResult list option) ret \<times> 'w) \<Rightarrow> Scheduler \<Rightarrow> time \<Rightarrow> 'w
     \<Rightarrow> (Scheduler \<times> alert option) ret \<times> 'w" where
  "processMessages process s t w =
     (let s1 = s\<lparr>lastRunAt := t, runsCount := runsCount s + 1\<rparr>;
          run_number = runsCount s1;
          rate = failureRate s1;
          webhook = alertWebhook s1;
          threshold = alertThreshold s1
      in case process w rate of
           (Panic, w1) \<Rightarrow> (Panic, w1)
         | (Ret (Inl err), w1) \<Rightarrow> (Ret (s1, None), w1)
         | (Ret (Inr None), w1) \<Rightarrow> (Ret (s1, None), w1)
         | (Ret (Inr (Some results)), w1) \<Rightarrow>
             (let (successCount, allFailed) = count_results results (0, True);
                  s2 = s1\<lparr>messagesSent := messagesSent s1 + successCount\<rparr>
              in if allFailed \<and> length results > 0 then
                   (let s3 = s2\<lparr>consecutiveAllFailCount := consecutiveAllFailCount s2 + 1\<rparr>
                    in (Ret (s3,
                          if consecutiveAllFailCount s3 \<ge> threshold \<and> threshold > 0
                               \<and> webhook \<noteq> []
                          then Some \<lparr>webhookURL = webhook, runNumber = run_number,
                                     consecutiveFailures = consecutiveAllFailCount s3,
                                     messagesInBatch = int (length results)\<rparr>
                          else None), w1))
                 else (Ret (s2\<lparr>consecutiveAllFailCount := 0\<rparr>, None), w1)))"

text \<open>
  \<^verbatim>\<open>sendAlert\<close>, run by its own goroutine: what the HTTP exchange did is an input, \<open>t\<close>
  the clock when the response is read.
\<close>

datatype alert_io = MarshalError error | PostError error | Response int

definition sendAlert :: "Scheduler \<Rightarrow> alert \<Rightarrow> alert_io \<Rightarrow> time \<Rightarrow> Scheduler" where
  "sendAlert s a io t =
     (case io of
        Response code \<Rightarrow>
          if code = 200 \<or> code = 204 then s\<lparr>lastAlertSentAt := t\<rparr> else s
      | _ \<Rightarrow> s)"

section \<open>Well-formed tables\<close>

text \<open>
  A message's delivery fields match its status: both present when it is Sent, both null
  otherwise. A table is well formed when the primary keys are distinct and below the
  \<^verbatim>\<open>AUTO_INCREMENT\<close> counter and every row's delivery fields match its status.
\<close>

definition delivery_fields_match :: "Message \<Rightarrow> bool" where
  "delivery_fields_match m =
     (if Status m = StatusSent then MessageID m \<noteq> None \<and> SentAt m \<noteq> None
      else MessageID m = None \<and> SentAt m = None)"

definition table_ok :: "table \<Rightarrow> bool" where
  "table_ok t =
     (distinct (map ID (rows t))
      \<and> list_all (\<lambda>m. ID m < AUTO_INCREMENT t \<and> delivery_fields_match m) (rows t))"

text \<open>
  The number of characters of a UTF-8 string: its bytes that are not continuation bytes
  (\<open>10xxxxxx\<close>). \<open>string\<close> is a list of bytes, as a Go string is.
\<close>

definition utf8_continuation :: "char \<Rightarrow> bool" where
  "utf8_continuation c = (128 \<le> (of_char c :: nat) \<and> (of_char c :: nat) < 192)"

definition rune_count :: "string \<Rightarrow> nat" where
  "rune_count s = length (filter (\<lambda>c. \<not> utf8_continuation c) s)"

section \<open>Fixtures of the tests (message_service_test.go, scheduler_test.go)\<close>

text \<open>The calls the service made between world \<open>w\<close> and the later world \<open>w'\<close>.\<close>

definition calls_since :: "world \<Rightarrow> world \<Rightarrow> call list" where
  "calls_since w w' = drop (length (calls w)) (calls w')"

definition sql_ok :: sql_env where
  "sql_ok = \<lparr>driver = DriverOk, current_timestamp = 1000\<rparr>"

definition sql_down :: sql_env where
  "sql_down = \<lparr>driver = ExecError ''connection refused'', current_timestamp = 1000\<rparr>"

definition test_service :: MessageService where
  "test_service =
     \<lparr>config = \<lparr>BatchSize = 2, SendInterval = 2 * Minute, MaxContentLength = 10\<rparr>,
      redisClient = True\<rparr>"

definition test_message :: Message where
  "test_message =
     \<lparr>ID = 7, Content = ''0123456789ABCDEFGHIJ'', PhoneNumber = ''+905551234567'',
      Status = StatusPending, MessageID = None, SentAt = None,
      CreatedAt = 900, UpdatedAt = 900\<rparr>"

definition test_world :: world where
  "test_world =
     \<lparr>db = \<lparr>rows = [test_message], AUTO_INCREMENT = 8\<rparr>, redis = Map.empty, calls = []\<rparr>"

definition test_env :: deliver_env where
  "test_env =
     \<lparr>draw = 1 / 2, now = 1001,
      reply = Inr \<lparr>resp_Message = ''Accepted'', resp_MessageID = ''msg-long''\<rparr>,
      mark = sql_ok, cache_error = None\<rparr>"

definition test_pass :: pass_env where
  "test_pass = \<lparr>fetch = sql_ok, deliveries = (\<lambda>k. test_env)\<rparr>"

text \<open>
  The \<^verbatim>\<open>fakeProcessor\<close> of scheduler_test.go: it records the failure rate of each call and
  returns what it was given.
\<close>

definition fakeProcessor ::
  "SendResult list option \<Rightarrow> error option \<Rightarrow> real list \<Rightarrow> real
     \<Rightarrow> (error + SendResult list option) ret \<times> real list" where
  "fakeProcessor resultsToReturn errToReturn cs rate =
     (Ret (case errToReturn of Some e \<Rightarrow> Inl e | None \<Rightarrow> Inr resultsToReturn),
      cs @ [rate])"

definition result_of :: "bool \<Rightarrow> SendResult" where
  "result_of b =
     \<lparr>MessageDBID = 0, res_MessageID = [], Success = b, Error = None, res_SentAt = 0\<rparr>"

definition test_scheduler :: Scheduler where
  "test_scheduler = (NewScheduler Minute)\<lparr>alertThreshold := 3\<rparr>"

text \<open>A running scheduler after three passes in which every delivery failed.\<close>

definition streak_scheduler :: Scheduler where
  "streak_scheduler =
     \<lparr>interval = 2 * Minute, failureRate = 0, alertWebhook = ''http://alerts.example/hook'',
      alertThreshold = 3, lastAlertSentAt = 1900, running = True, lastRunAt = 1900,
      messagesSent = 0, runsCount = 3, consecutiveAllFailCount = 3\<rparr>"

text \<open>A table holding a sent message (id 1) and a failed one (id 42).\<close>

definition sent_message :: Message where
  "sent_message =
     \<lparr>ID = 1, Content = ''Hello from Insider'', PhoneNumber = ''+905551234567'',
      Status = StatusSent, MessageID = Some ''msg-123'', SentAt = Some 950,
      CreatedAt = 900, UpdatedAt = 950\<rparr>"

definition failed_message :: Message where
  "failed_message =
     \<lparr>ID = 42, Content = ''This will fail'', PhoneNumber = ''+905551234567'',
      Status = StatusFailed, MessageID = None, SentAt = None,
      CreatedAt = 910, UpdatedAt = 960\<rparr>"

definition replay_table :: table where
  "replay_table = \<lparr>rows = [sent_message, failed_message], AUTO_INCREMENT = 43\<rparr>"

text \<open>
  A sequence of operations: two messages are created, a pass delivers the first and fails
  on the second (the webhook errs), the second is replayed and delivered again with
  failure probability 1.
\<close>

definition test_pass2 :: pass_env where
  "test_pass2 =
     \<lparr>fetch = sql_ok,
      deliveries = (\<lambda>k. if k = 0 then test_env
                         else test_env\<lparr>reply := Inl ''simulated webhook error''\<rparr>)\<rparr>"

definition test_ops :: "op list" where
  "test_ops =
     [OpCreateMessage ''Hello'' ''+905551234567'' sql_ok sql_ok,
      OpCreateMessage ''Fail'' ''+905551234567'' sql_ok sql_ok,
      OpProcessUnsentMessages 0 test_pass2,
      OpReplayFailedMessage 2 sql_ok,
      OpDeliver \<lparr>ID = 2, Content = ''Fail'', PhoneNumber = ''+905551234567'',
                 Status = StatusPending, MessageID = None, SentAt = None,
                 CreatedAt = 1000, UpdatedAt = 1000\<rparr> 1 test_env]"

text \<open>
  A pending message whose content is six times the letter e with acute accent: 6
  characters, 12 bytes of UTF-8 (\<open>C3 A9\<close> each).
\<close>

definition accent_message :: Message where
  "accent_message =
     \<lparr>ID = 9,
      Content = [CHR 0xC3, CHR 0xA9, CHR 0xC3, CHR 0xA9, CHR 0xC3, CHR 0xA9,
                 CHR 0xC3, CHR 0xA9, CHR 0xC3, CHR 0xA9, CHR 0xC3, CHR 0xA9],
      PhoneNumber = ''+905551234567'', Status = StatusPending, MessageID = None,
      SentAt = None, CreatedAt = 900, UpdatedAt = 900\<rparr>"

definition accent_world :: world where
  "accent_world =
     \<lparr>db = \<lparr>rows = [accent_message], AUTO_INCREMENT = 10\<rparr>, redis = Map.empty, calls = []\<rparr>"

definition service_with_max :: "int \<Rightarrow> MessageService" where
  "service_with_max n =
     \<lparr>config = \<lparr>BatchSize = 2, SendInterval = 2 * Minute, MaxContentLength = n\<rparr>,
      redisClient = True\<rparr>"

lemmas fixture_defs = sql_ok_def sql_down_def test_service_def test_message_def test_world_def
  test_env_def test_pass_def fresh_world_def fakeProcessor_def result_of_def test_scheduler_def
  streak_scheduler_def NewScheduler_def sent_message_def failed_message_def replay_table_def

lemmas deliver_defs = deliver_def deliverMessage_def repo_MarkAsFailed_def repo_MarkAsSent_def
  SendMessage_def CacheSentMessage_def enforce_max_content_length_def slice_to_def
  MarkAsSent_def MarkAsFailed_def update_where_def

lemmas run_defs = CreateMessage_def repo_Create_def Create_def GetByID_def
  ProcessUnsentMessages_def GetUnsent_def ReplayFailedMessage_def ReplayFailedByID_def Let_def

lemmas accent_defs = utf8_continuation_def rune_count_def accent_message_def accent_world_def
  service_with_max_def

section \<open>Properties of the delivery engine\<close>

text \<open>
  Claim C3. With failure probability 1.0 every draw of \<open>[0,1)\<close> is below the probability,
  so the delivery of any message is a forced failure: the outcome has success = false and
  the cause "simulated failure for testing", and the only collaborator call is the
  repository's mark-failed for the message's id; the transport is not invoked.
\<close>

theorem deliver_forced_failure:
  assumes "0 \<le> draw env" and "draw env < 1"
  shows "fst (deliver s env w msg 1) =
           Ret \<lparr>MessageDBID = ID msg, res_MessageID = [], Success = False,
                Error = Some ''simulated failure for testing'', res_SentAt = now env\<rparr>
       \<and> calls_since w (snd (deliver s env w msg 1)) =
           [CallDeliverMessage (ID msg),
            CallMarkAsFailed (ID msg) (fst (MarkAsFailed (mark env) (db w) (ID msg)))]"
  using assms
  by (simp add: calls_since_def deliver_def deliverMessage_def repo_MarkAsFailed_def
      split: prod.splits)

theorem deliver_forced_failure_witness:
  "0 \<le> draw test_env \<and> draw test_env < 1
   \<and> fst (deliver test_service test_env test_world test_message 1) =
       Ret \<lparr>MessageDBID = 7, res_MessageID = [], Success = False,
            Error = Some ''simulated failure for testing'', res_SentAt = 1001\<rparr>
   \<and> calls_since test_world (snd (deliver test_service test_env test_world test_message 1)) =
       [CallDeliverMessage 7, CallMarkAsFailed 7 None]"
  using deliver_forced_failure [of test_env test_service test_world test_message]
  by (simp add: fixture_defs MarkAsFailed_def)




text \<open>The content policy, and the columns a delivery leaves alone.\<close>

lemma enforce_Some:
  assumes "int (length content) > maxLen" and "enforce_max_content_length maxLen content = Some c"
  shows "int (length c) = maxLen
       \<and> c = (if maxLen > 3 then take (nat (maxLen - 3)) content @ ''...''
              else take (nat maxLen) content)"
  using assms
  by (auto simp: enforce_max_content_length_def slice_to_def Let_def split: if_splits)

lemma enforce_nonneg:
  assumes "0 \<le> maxLen"
  shows "enforce_max_content_length maxLen content \<noteq> None"
  using assms
  by (auto simp: enforce_max_content_length_def slice_to_def Let_def)

lemma MarkAsSent_Content:
  "map Content (rows (snd (MarkAsSent env t i mid ts))) = map Content (rows t)"
  by (auto simp: MarkAsSent_def update_where_def Let_def split: driver.splits)

lemma MarkAsFailed_Content:
  "map Content (rows (snd (MarkAsFailed env t i))) = map Content (rows t)"
  by (auto simp: MarkAsFailed_def update_where_def Let_def split: driver.splits)

lemma deliverMessage_Content:
  "map Content (rows (db (snd (deliverMessage s env w msg sf)))) = map Content (rows (db w))"
  by (auto simp: deliverMessage_def repo_MarkAsFailed_def repo_MarkAsSent_def SendMessage_def
      CacheSentMessage_def Let_def MarkAsSent_Content MarkAsFailed_Content
      split: prod.splits if_splits option.splits sum.splits
      dest: arg_cong [where f = "\<lambda>p. map Content (rows (snd p))"])

text \<open>
  The content policy counts bytes. When the content has more than \<open>MaxContentLength\<close>
  bytes, any content the delivery passes to the transport has exactly \<open>MaxContentLength\<close>
  bytes: the first \<open>MaxContentLength - 3\<close> bytes of the original followed by "..." when the
  bound exceeds 3, the first \<open>MaxContentLength\<close> bytes and no marker otherwise. A delivery
  that is not a forced failure does call the transport when the bound is not negative.
  The contents stored in the table are the same before and after the delivery. The test's
  case: bound 10, content "0123456789ABCDEFGHIJ", delivered "0123456...".
\<close>

theorem deliver_truncates_content:
  assumes "int (length (Content msg)) > MaxContentLength (config s)"
      and "deliverMessage s env w msg shouldFailAll = (r, w')"
  shows "(\<forall>p c. CallSendMessage p c \<in> set (calls_since w w') \<longrightarrow>
            int (length c) = MaxContentLength (config s)
          \<and> c = (if MaxContentLength (config s) > 3
                 then take (nat (MaxContentLength (config s) - 3)) (Content msg) @ ''...''
                 else take (nat (MaxContentLength (config s))) (Content msg)))
       \<and> (\<not> shouldFailAll \<and> 0 \<le> MaxContentLength (config s) \<longrightarrow>
            (\<exists>c. CallSendMessage (PhoneNumber msg) c \<in> set (calls_since w w')))
       \<and> map Content (rows (db w')) = map Content (rows (db w))"
proof -
  have c: "map Content (rows (db w')) = map Content (rows (db w))"
    using deliverMessage_Content [of s env w msg shouldFailAll] assms(2) by simp
  have a: "CallSendMessage p c \<in> set (calls_since w w') \<Longrightarrow>
             enforce_max_content_length (MaxContentLength (config s)) (Content msg) = Some c" for p c
    using assms(2)
    by (auto simp: calls_since_def deliverMessage_def repo_MarkAsFailed_def repo_MarkAsSent_def
        SendMessage_def CacheSentMessage_def Let_def
        split: prod.splits if_splits option.splits sum.splits)
  have b: "\<not> shouldFailAll \<Longrightarrow> 0 \<le> MaxContentLength (config s) \<Longrightarrow>
             \<exists>c. CallSendMessage (PhoneNumber msg) c \<in> set (calls_since w w')"
    using assms(2) enforce_nonneg [of "MaxContentLength (config s)" "Content msg"]
    by (auto simp: calls_since_def deliverMessage_def repo_MarkAsFailed_def repo_MarkAsSent_def
        SendMessage_def CacheSentMessage_def Let_def
        split: prod.splits if_splits option.splits sum.splits)
  show ?thesis
    using a b c enforce_Some [OF assms(1)] by blast
qed

theorem deliver_truncates_content_witness:
  "\<exists>r w'. deliverMessage test_service test_env test_world test_message False = (r, w')
     \<and> int (length (Content test_message)) > MaxContentLength (config test_service)
     \<and> calls_since test_world w' =
         [CallDeliverMessage 7, CallSendMessage ''+905551234567'' ''0123456...'',
          CallMarkAsSent 7 ''msg-long'' 1001 None, CallCacheSentMessage 7 ''msg-long'' 1001]
     \<and> int (length ''0123456...'') = MaxContentLength (config test_service)
     \<and> map Content (rows (db w')) = [''0123456789ABCDEFGHIJ'']"
proof -
  obtain r w' where d: "deliverMessage test_service test_env test_world test_message False = (r, w')"
    by (cases "deliverMessage test_service test_env test_world test_message False")
  have l: "int (length (Content test_message)) > MaxContentLength (config test_service)"
    by (simp add: fixture_defs)
  have cs: "calls_since test_world w' =
         [CallDeliverMessage 7, CallSendMessage ''+905551234567'' ''0123456...'',
          CallMarkAsSent 7 ''msg-long'' 1001 None, CallCacheSentMessage 7 ''msg-long'' 1001]"
    using d by (auto simp: fixture_defs deliver_defs calls_since_def)
  show ?thesis
    using deliver_truncates_content [OF l d] l cs unfolding d
    by (simp add: fixture_defs)
qed

text \<open>
  Claim C4 at a failing input. The claim counts characters; the code counts and cuts
  bytes. The content of six accented letters (6 characters, 12 bytes) under the bound 5
  is delivered as one accented letter and the marker: 4 characters, not the 5 of the
  claim (the first two characters and the marker). Under the bound 6 the cut falls inside
  a character and the delivered content ends its prefix with a lone lead byte. Under a
  negative bound the slice panics before the transport is called.
\<close>

theorem deliver_truncates_bytes_not_characters:
  "rune_count (Content accent_message) = 6
   \<and> length (Content accent_message) = 12
   \<and> calls_since accent_world
        (snd (deliverMessage (service_with_max 5) test_env accent_world accent_message False))
       = [CallDeliverMessage 9,
          CallSendMessage ''+905551234567'' [CHR 0xC3, CHR 0xA9, CHR ''.'', CHR ''.'', CHR ''.''],
          CallMarkAsSent 9 ''msg-long'' 1001 None,
          CallCacheSentMessage 9 ''msg-long'' 1001]
   \<and> rune_count [CHR 0xC3, CHR 0xA9, CHR ''.'', CHR ''.'', CHR ''.''] = 4
   \<and> calls_since accent_world
        (snd (deliverMessage (service_with_max 6) test_env accent_world accent_message False))
       = [CallDeliverMessage 9,
          CallSendMessage ''+905551234567''
            [CHR 0xC3, CHR 0xA9, CHR 0xC3, CHR ''.'', CHR ''.'', CHR ''.''],
          CallMarkAsSent 9 ''msg-long'' 1001 None,
          CallCacheSentMessage 9 ''msg-long'' 1001]
   \<and> deliverMessage (service_with_max (- 1)) test_env accent_world accent_message False
       = (Panic, accent_world\<lparr>calls := [CallDeliverMessage 9]\<rparr>)"
  by (simp add: accent_defs fixture_defs deliver_defs calls_since_def)

text \<open>
  Claim C10. Creating a message whose content is longer than \<open>MaxContentLength\<close> returns
  the error "content exceeds maximum length of N characters" and leaves the world as it
  was (no repository call, no write); for content within the bound, creation is exactly
  the repository's create with the same content and phone number.
\<close>

theorem create_rejects_long_content:
  "(int (length content) > MaxContentLength (config s) \<longrightarrow>
      CreateMessage s env env2 w content phoneNumber =
        (Inl (''content exceeds maximum length of ''
              @ show_int (MaxContentLength (config s)) @ '' characters''), w))
   \<and> (int (length content) \<le> MaxContentLength (config s) \<longrightarrow>
      CreateMessage s env env2 w content phoneNumber =
        repo_Create env env2 w content phoneNumber)"
  by (simp add: CreateMessage_def)

theorem create_rejects_long_content_witness:
  "int (length ''0123456789ABC'') > MaxContentLength (config test_service)
   \<and> CreateMessage test_service sql_ok sql_ok fresh_world ''0123456789ABC'' ''+905551234567'' =
       (Inl ''content exceeds maximum length of 10 characters'', fresh_world)
   \<and> int (length ''Hello'') \<le> MaxContentLength (config test_service)
   \<and> CreateMessage test_service sql_ok sql_ok fresh_world ''Hello'' ''+905551234567'' =
       (Inr (Some \<lparr>ID = 1, Content = ''Hello'', PhoneNumber = ''+905551234567'',
                   Status = StatusPending, MessageID = None, SentAt = None,
                   CreatedAt = 1000, UpdatedAt = 1000\<rparr>),
        \<lparr>db = \<lparr>rows = [\<lparr>ID = 1, Content = ''Hello'', PhoneNumber = ''+905551234567'',
                   Status = StatusPending, MessageID = None, SentAt = None,
                   CreatedAt = 1000, UpdatedAt = 1000\<rparr>], AUTO_INCREMENT = 2\<rparr>,
         redis = Map.empty, calls = [CallCreate ''Hello'' ''+905551234567'']\<rparr>)"
  using create_rejects_long_content [where content = "''0123456789ABC''" and s = test_service
      and env = sql_ok and ?env2.0 = sql_ok and w = fresh_world and phoneNumber = "''+905551234567''"]
    create_rejects_long_content [where content = "''Hello''" and s = test_service
      and env = sql_ok and ?env2.0 = sql_ok and w = fresh_world and phoneNumber = "''+905551234567''"]
  by (simp add: fixture_defs show_int_def show_nat.simps repo_Create_def Create_def GetByID_def)

section \<open>Properties of the scheduler\<close>

text \<open>The counting loop, and a pass by what the processor returned.\<close>

lemma count_results_eq:
  "count_results rs (n, b) =
     (n + int (length (filter Success rs)), b \<and> filter Success rs = [])"
  by (induction rs arbitrary: n b) auto

lemma processMessages_results:
  assumes "process w (failureRate s) = (Ret (Inr (Some results)), w1)"
  shows "processMessages process s t w =
     (let s2 = s\<lparr>lastRunAt := t, runsCount := runsCount s + 1,
                  messagesSent := messagesSent s + int (length (filter Success results))\<rparr>
      in if results \<noteq> [] \<and> filter Success results = []
         then (Ret (s2\<lparr>consecutiveAllFailCount := consecutiveAllFailCount s + 1\<rparr>,
                if consecutiveAllFailCount s + 1 \<ge> alertThreshold s \<and> alertThreshold s > 0
                     \<and> alertWebhook s \<noteq> []
                then Some \<lparr>webhookURL = alertWebhook s, runNumber = runsCount s + 1,
                           consecutiveFailures = consecutiveAllFailCount s + 1,
                           messagesInBatch = int (length results)\<rparr>
                else None), w1)
         else (Ret (s2\<lparr>consecutiveAllFailCount := 0\<rparr>, None), w1))"
  using assms by (simp add: processMessages_def count_results_eq Let_def)

lemma processMessages_no_results:
  assumes "process w (failureRate s) = (Ret r, w1)" and "r = Inr None \<or> (\<exists>e. r = Inl e)"
  shows "processMessages process s t w =
           (Ret (s\<lparr>lastRunAt := t, runsCount := runsCount s + 1\<rparr>, None), w1)"
  using assms by (auto simp: processMessages_def Let_def)

lemma processMessages_panic:
  assumes "process w (failureRate s) = (Panic, w1)"
  shows "processMessages process s t w = (Panic, w1)"
  using assms by (auto simp: processMessages_def Let_def)

lemma process_cases:
  obtains (panic) w1 where "process w (rate :: real) = (Panic, w1)"
  | (none) r w1 where "process w rate = (Ret r, w1)" "r = Inr None \<or> (\<exists>e. r = Inl e)"
  | (some) results w1 where "process w rate = (Ret (Inr (Some results)), w1)"
proof (cases "process w rate")
  case (Pair a w1)
  show ?thesis
  proof (cases a)
    case Panic
    then show ?thesis using Pair panic by simp
  next
    case (Ret r)
    show ?thesis
    proof (cases r)
      case (Inl e)
      then show ?thesis using Pair Ret none by simp
    next
      case (Inr x)
      then show ?thesis using Pair Ret none some by (cases x) auto
    qed
  qed
qed

text \<open>
  Claim C5 (amended). A pass that ends leaves the run count increased by exactly 1. When
  the processor returned a list of outcomes, the cumulative sent count grows by the
  number of outcomes with success = true, and the consecutive-all-failed-run counter is
  incremented by 1 if the list is non-empty with zero successes and reset to 0 otherwise
  (the test's outcomes [success, fail, success] add 2 and reset the counter). When the
  processor returned no list (an empty batch) or an error, the sent count and the
  counter are left as they were.
\<close>

theorem pass_counters:
  assumes "processMessages process s t w = (Ret (s', a), w1)"
  shows "runsCount s' = runsCount s + 1
     \<and> (\<forall>results. fst (process w (failureRate s)) = Ret (Inr (Some results)) \<longrightarrow>
          messagesSent s' = messagesSent s + int (length (filter Success results))
        \<and> consecutiveAllFailCount s' =
            (if results \<noteq> [] \<and> filter Success results = []
             then consecutiveAllFailCount s + 1 else 0))
     \<and> (fst (process w (failureRate s)) = Ret (Inr None)
          \<or> (\<exists>e. fst (process w (failureRate s)) = Ret (Inl e)) \<longrightarrow>
          messagesSent s' = messagesSent s
        \<and> consecutiveAllFailCount s' = consecutiveAllFailCount s)"
proof (cases rule: process_cases [of process w "failureRate s"])
  case (panic w2)
  then show ?thesis
    using assms processMessages_panic [of process w s w2 t] by simp
next
  case (none r w2)
  then show ?thesis
    using assms processMessages_no_results [of process w s r w2 t] by auto
next
  case (some results w2)
  then show ?thesis
    using assms processMessages_results [of process w s results w2 t]
    by (auto simp: Let_def split: if_splits)
qed

theorem pass_counters_witness:
  "\<exists>s' a w1.
     processMessages (fakeProcessor (Some [result_of True, result_of False, result_of True]) None)
       test_scheduler 50 [] = (Ret (s', a), w1)
     \<and> fst (fakeProcessor (Some [result_of True, result_of False, result_of True]) None []
           (failureRate test_scheduler))
         = Ret (Inr (Some [result_of True, result_of False, result_of True]))
     \<and> messagesSent s' = 2 \<and> runsCount s' = 1 \<and> consecutiveAllFailCount s' = 0"
proof -
  let ?p = "fakeProcessor (Some [result_of True, result_of False, result_of True]) None"
  obtain x w1 where d: "processMessages ?p test_scheduler 50 [] = (x, w1)"
    by (cases "processMessages ?p test_scheduler 50 []")
  have f: "fst (?p [] (failureRate test_scheduler))
             = Ret (Inr (Some [result_of True, result_of False, result_of True]))"
    by (simp add: fixture_defs)
  from d obtain s' a where x: "x = Ret (s', a)"
    by (auto simp: processMessages_def fixture_defs Let_def)
  show ?thesis
    using pass_counters [OF d [unfolded x]] f d x
    by (auto simp: fixture_defs)
qed


lemma ProcessUnsentMessages_empty:
  assumes "GetUnsent (fetch env) (db w) (BatchSize (config svc)) = Inr []"
  shows "ProcessUnsentMessages svc env w rate = (Ret (Inr None), w)"
  using assms by (simp add: ProcessUnsentMessages_def)

lemma GetUnsent_fresh: "GetUnsent sql_ok (db fresh_world) 2 = Inr []"
  by (simp add: GetUnsent_def fixture_defs)

text \<open>
  Claim C5 as stated fails: on an empty batch the counter is not reset to 0. A scheduler
  whose counter is 3 runs a pass over a table with no pending message and keeps 3.
\<close>

theorem pass_empty_batch_keeps_streak:
  "GetUnsent (fetch test_pass) (db fresh_world) (BatchSize (config test_service)) = Inr []
   \<and> processMessages (ProcessUnsentMessages test_service test_pass) streak_scheduler 2000
       fresh_world
       = (Ret (streak_scheduler\<lparr>lastRunAt := 2000, runsCount := 4\<rparr>, None), fresh_world)
   \<and> consecutiveAllFailCount (streak_scheduler\<lparr>lastRunAt := 2000, runsCount := 4\<rparr>) = 3
   \<and> consecutiveAllFailCount (streak_scheduler\<lparr>lastRunAt := 2000, runsCount := 4\<rparr>) \<noteq> 0"
proof -
  have g: "GetUnsent (fetch test_pass) (db fresh_world) (BatchSize (config test_service)) = Inr []"
    using GetUnsent_fresh by (simp add: test_pass_def test_service_def)
  have p: "ProcessUnsentMessages test_service test_pass fresh_world (failureRate streak_scheduler)
             = (Ret (Inr None), fresh_world)"
    using ProcessUnsentMessages_empty [OF g] .
  show ?thesis
    using g processMessages_no_results [of "ProcessUnsentMessages test_service test_pass"
        fresh_world streak_scheduler "Inr None" fresh_world 2000] p
    by (simp add: streak_scheduler_def)
qed

text \<open>
  Claim C8. When the fetched batch of pending messages is empty, the pass records its
  start time and increments the run count, and nothing else: the cumulative sent count
  and the consecutive-all-failed-run counter are unchanged, the world (table, cache and
  call log) is the same, so no delivery was invoked, and no alert is launched.
\<close>

theorem pass_empty_batch:
  assumes "GetUnsent (fetch env) (db w) (BatchSize (config svc)) = Inr []"
  shows "processMessages (ProcessUnsentMessages svc env) s t w
           = (Ret (s\<lparr>lastRunAt := t, runsCount := runsCount s + 1\<rparr>, None), w)
       \<and> messagesSent (s\<lparr>lastRunAt := t, runsCount := runsCount s + 1\<rparr>) = messagesSent s
       \<and> consecutiveAllFailCount (s\<lparr>lastRunAt := t, runsCount := runsCount s + 1\<rparr>)
           = consecutiveAllFailCount s"
  using processMessages_no_results [of "ProcessUnsentMessages svc env" w s "Inr None" w t]
    ProcessUnsentMessages_empty [OF assms]
  by simp

theorem pass_empty_batch_witness:
  "GetUnsent (fetch test_pass) (db fresh_world) (BatchSize (config test_service)) = Inr []
   \<and> processMessages (ProcessUnsentMessages test_service test_pass) test_scheduler 2000
       fresh_world
       = (Ret (test_scheduler\<lparr>lastRunAt := 2000, runsCount := 1\<rparr>, None), fresh_world)"
proof -
  have g: "GetUnsent (fetch test_pass) (db fresh_world) (BatchSize (config test_service)) = Inr []"
    using GetUnsent_fresh by (simp add: test_pass_def test_service_def)
  show ?thesis
    using pass_empty_batch [OF g, of test_scheduler 2000] g
    by (simp add: test_scheduler_def NewScheduler_def)
qed

lemma sendAlert_frame: "\<exists>x. sendAlert s al io t = s\<lparr>lastAlertSentAt := x\<rparr>"
proof (cases "sendAlert s al io t = s")
  case True
  then have "sendAlert s al io t = s\<lparr>lastAlertSentAt := lastAlertSentAt s\<rparr>" by simp
  then show ?thesis ..
next
  case False
  then have "sendAlert s al io t = s\<lparr>lastAlertSentAt := t\<rparr>"
    by (auto simp: sendAlert_def split: alert_io.splits if_splits)
  then show ?thesis ..
qed

text \<open>
  Claim C7 (amended). On a pass for which the processor returned a list of outcomes, an
  alert is launched exactly when, after the streak update, the consecutive-all-failed-run
  counter is at least the threshold, the threshold is positive and the alert webhook is
  not empty; an alert is launched only on such a pass, with a non-empty list without a
  success, and carries the webhook, the run number, the counter and the batch size. The
  decision does not read the last-alert time, and after an alert (whatever its HTTP
  exchange did) the next pass whose deliveries all fail launches an alert again. Sending
  the alert changes none of the three counters.
\<close>

theorem pass_alert_decision:
  assumes "processMessages process s t w = (Ret (s', a), w1)"
  shows "(\<forall>results. fst (process w (failureRate s)) = Ret (Inr (Some results)) \<longrightarrow>
            (a \<noteq> None \<longleftrightarrow>
               consecutiveAllFailCount s' \<ge> alertThreshold s \<and> alertThreshold s > 0
               \<and> alertWebhook s \<noteq> []))
       \<and> (a \<noteq> None \<longrightarrow>
            (\<exists>results. fst (process w (failureRate s)) = Ret (Inr (Some results))
               \<and> results \<noteq> [] \<and> filter Success results = []
               \<and> a = Some \<lparr>webhookURL = alertWebhook s, runNumber = runsCount s',
                            consecutiveFailures = consecutiveAllFailCount s',
                            messagesInBatch = int (length results)\<rparr>))
       \<and> (\<forall>x. processMessages process (s\<lparr>lastAlertSentAt := x\<rparr>) t w
                 = (Ret (s'\<lparr>lastAlertSentAt := x\<rparr>, a), w1))
       \<and> (\<forall>al io t2 process2 t3 results2 w2.
            a = Some al \<and> process2 w1 (failureRate s) = (Ret (Inr (Some results2)), w2)
            \<and> results2 \<noteq> [] \<and> filter Success results2 = [] \<longrightarrow>
            (\<exists>s2 al2. processMessages process2 (sendAlert s' al io t2) t3 w1
                         = (Ret (s2, Some al2), w2)))
       \<and> (\<forall>al io t2.
            runsCount (sendAlert s' al io t2) = runsCount s'
          \<and> messagesSent (sendAlert s' al io t2) = messagesSent s'
          \<and> consecutiveAllFailCount (sendAlert s' al io t2) = consecutiveAllFailCount s')"
proof -
  have frame: "runsCount (sendAlert s' al io t2) = runsCount s'
          \<and> messagesSent (sendAlert s' al io t2) = messagesSent s'
          \<and> consecutiveAllFailCount (sendAlert s' al io t2) = consecutiveAllFailCount s'"
    for al io t2
    using sendAlert_frame [of s' al io t2] by auto
  show ?thesis
  proof (cases rule: process_cases [of process w "failureRate s"])
    case (panic w2)
    then show ?thesis
      using assms processMessages_panic [of process w s w2 t] by simp
  next
    case (none r w2)
    have "processMessages process (s\<lparr>lastAlertSentAt := x\<rparr>) t w
            = (Ret (s'\<lparr>lastAlertSentAt := x\<rparr>, a), w1)" for x
      using none assms processMessages_no_results [of process w s r w2 t]
        processMessages_no_results [of process w "s\<lparr>lastAlertSentAt := x\<rparr>" r w2 t]
      by auto
    then show ?thesis
      using none assms processMessages_no_results [of process w s r w2 t] frame by auto
  next
    case (some results w2)
    have indep: "processMessages process (s\<lparr>lastAlertSentAt := x\<rparr>) t w
            = (Ret (s'\<lparr>lastAlertSentAt := x\<rparr>, a), w1)" for x
      using some assms processMessages_results [of process w s results w2 t]
        processMessages_results [of process w "s\<lparr>lastAlertSentAt := x\<rparr>" results w2 t]
      by (auto simp: Let_def split: if_splits)
    have again: "\<exists>s2 al2. processMessages process2 (sendAlert s' al io t2) t3 w1
                         = (Ret (s2, Some al2), w3)"
      if "a = Some al" "process2 w1 (failureRate s) = (Ret (Inr (Some results2)), w3)"
         "results2 \<noteq> []" "filter Success results2 = []"
      for al io t2 process2 t3 results2 w3
    proof -
      obtain x where x: "sendAlert s' al io t2 = s'\<lparr>lastAlertSentAt := x\<rparr>"
        using sendAlert_frame by blast
      have s': "failureRate s' = failureRate s" "alertThreshold s' = alertThreshold s"
          "alertWebhook s' = alertWebhook s"
          "alertThreshold s \<le> consecutiveAllFailCount s'" "0 < alertThreshold s"
          "alertWebhook s \<noteq> []"
        using that(1) some assms processMessages_results [of process w s results w2 t]
        by (auto simp: Let_def split: if_splits)
      show ?thesis
        using processMessages_results [of process2 w1 "s'\<lparr>lastAlertSentAt := x\<rparr>" results2 w3 t3]
          that s' x
        by (auto simp: Let_def)
    qed
    show ?thesis
      apply (intro conjI allI impI)
      subgoal using some assms processMessages_results [of process w s results w2 t]
        by (auto simp: Let_def split: if_splits)
      subgoal using some assms processMessages_results [of process w s results w2 t]
        by (auto simp: Let_def split: if_splits)
      subgoal using indep by simp
      subgoal using again by blast
      subgoal using frame by simp
      subgoal using frame by simp
      subgoal using frame by simp
      done
  qed
qed


theorem pass_alert_decision_witness:
  "processMessages (fakeProcessor (Some [result_of False, result_of False]) None)
       streak_scheduler 2000 []
     = (Ret (streak_scheduler\<lparr>lastRunAt := 2000, runsCount := 4,
                consecutiveAllFailCount := 4\<rparr>,
             Some \<lparr>webhookURL = ''http://alerts.example/hook'', runNumber = 4,
                   consecutiveFailures = 4, messagesInBatch = 2\<rparr>), [0])
   \<and> fst (fakeProcessor (Some [result_of False, result_of False]) None []
         (failureRate streak_scheduler))
       = Ret (Inr (Some [result_of False, result_of False]))
   \<and> alertThreshold streak_scheduler = 3
   \<and> alertWebhook streak_scheduler = ''http://alerts.example/hook''
   \<and> processMessages (fakeProcessor (Some [result_of False, result_of False]) None)
       (streak_scheduler\<lparr>lastAlertSentAt := 1999\<rparr>) 2000 []
     = (Ret (streak_scheduler\<lparr>lastRunAt := 2000, runsCount := 4,
                consecutiveAllFailCount := 4, lastAlertSentAt := 1999\<rparr>,
             Some \<lparr>webhookURL = ''http://alerts.example/hook'', runNumber = 4,
                   consecutiveFailures = 4, messagesInBatch = 2\<rparr>), [0])"
proof -
  let ?p = "fakeProcessor (Some [result_of False, result_of False]) None"
  have d: "processMessages ?p streak_scheduler 2000 []
     = (Ret (streak_scheduler\<lparr>lastRunAt := 2000, runsCount := 4,
                consecutiveAllFailCount := 4\<rparr>,
             Some \<lparr>webhookURL = ''http://alerts.example/hook'', runNumber = 4,
                   consecutiveFailures = 4, messagesInBatch = 2\<rparr>), [0])"
    by (simp add: processMessages_def fixture_defs Let_def)
  have f: "fst (?p [] (failureRate streak_scheduler))
             = Ret (Inr (Some [result_of False, result_of False]))"
    by (simp add: fixture_defs)
  have i: "processMessages ?p (streak_scheduler\<lparr>lastAlertSentAt := 1999\<rparr>) 2000 []
     = (Ret (streak_scheduler\<lparr>lastRunAt := 2000, runsCount := 4,
                consecutiveAllFailCount := 4, lastAlertSentAt := 1999\<rparr>,
             Some \<lparr>webhookURL = ''http://alerts.example/hook'', runNumber = 4,
                   consecutiveFailures = 4, messagesInBatch = 2\<rparr>), [0])"
    using pass_alert_decision [OF d] by simp
  show ?thesis
    using d f i by (simp add: streak_scheduler_def)
qed

text \<open>
  Claim C7 as stated fails on a pass with an empty batch: the counter (3) is at least the
  threshold (3), the threshold is positive and a webhook is configured, and the pass
  launches no alert.
\<close>

theorem pass_empty_batch_raises_no_alert:
  "GetUnsent (fetch test_pass) (db fresh_world) (BatchSize (config test_service)) = Inr []
   \<and> processMessages (ProcessUnsentMessages test_service test_pass) streak_scheduler 2000
       fresh_world
       = (Ret (streak_scheduler\<lparr>lastRunAt := 2000, runsCount := 4\<rparr>, None), fresh_world)
   \<and> alertThreshold (streak_scheduler\<lparr>lastRunAt := 2000, runsCount := 4\<rparr>)
       \<le> consecutiveAllFailCount (streak_scheduler\<lparr>lastRunAt := 2000, runsCount := 4\<rparr>)
   \<and> 0 < alertThreshold (streak_scheduler\<lparr>lastRunAt := 2000, runsCount := 4\<rparr>)
   \<and> alertWebhook (streak_scheduler\<lparr>lastRunAt := 2000, runsCount := 4\<rparr>) \<noteq> []"
proof -
  have g: "GetUnsent (fetch test_pass) (db fresh_world) (BatchSize (config test_service)) = Inr []"
    using GetUnsent_fresh by (simp add: test_pass_def test_service_def)
  have p: "ProcessUnsentMessages test_service test_pass fresh_world (failureRate streak_scheduler)
             = (Ret (Inr None), fresh_world)"
    using ProcessUnsentMessages_empty [OF g] .
  show ?thesis
    using g processMessages_no_results [of "ProcessUnsentMessages test_service test_pass"
        fresh_world streak_scheduler "Inr None" fresh_world 2000] p
    by (simp add: streak_scheduler_def)
qed

text \<open>Starting a scheduler that is running.\<close>

lemma Start_running: "running s \<Longrightarrow> Start s = (s, False)"
  by (simp add: Start_def)

lemma StartWithParams_running:
  assumes "running s"
  shows "StartWithParams s intervalMinutes rate webhook threshold =
           (s\<lparr>interval := (if intervalMinutes \<le> 0 then 120 else intervalMinutes) * Minute,
              failureRate := rate, alertWebhook := webhook, alertThreshold := threshold,
              consecutiveAllFailCount := 0\<rparr>, False)"
  using assms by (simp add: StartWithParams_def Start_def Let_def)

text \<open>
  Claim C6 at a failing input. \<^verbatim>\<open>StartWithParams\<close> on a running scheduler launches no
  second loop, but it has already overwritten the interval, the failure rate and the
  alert parameters and reset the consecutive-all-failed-run counter (here from 3 to 0)
  before \<^verbatim>\<open>Start\<close> finds the scheduler running.
\<close>

theorem StartWithParams_running_resets_streak:
  "running streak_scheduler \<and> consecutiveAllFailCount streak_scheduler = 3
   \<and> StartWithParams streak_scheduler 5 (1 / 2) ''http://other.example/hook'' 7 =
       (streak_scheduler\<lparr>interval := 5 * Minute, failureRate := 1 / 2,
          alertWebhook := ''http://other.example/hook'', alertThreshold := 7,
          consecutiveAllFailCount := 0\<rparr>, False)"
  by (simp add: StartWithParams_def Start_def streak_scheduler_def)

section \<open>Properties of replay\<close>

lemma update_where_rows: "fst (update_where P f ms) = map (\<lambda>m. if P m then f m else m) ms"
  by (simp add: update_where_def)

lemma update_where_count:
  assumes "\<And>m. P m \<Longrightarrow> f m \<noteq> m"
  shows "snd (update_where P f ms) = int (length (filter P ms))"
proof -
  have "filter (\<lambda>m. P m \<and> f m \<noteq> m) ms = filter P ms"
    by (rule filter_cong) (use assms in auto)
  then show ?thesis by (simp add: update_where_def)
qed

lemma update_where_none:
  assumes "\<not> (\<exists>m \<in> set ms. P m)"
  shows "fst (update_where P f ms) = ms"
  unfolding update_where_rows by (rule map_idI) (use assms in auto)

lemma replay_changes_row:
  "Status m = StatusFailed \<Longrightarrow>
     m\<lparr>Status := StatusPending, MessageID := None, SentAt := None, UpdatedAt := ts\<rparr> \<noteq> m"
proof
  assume f: "Status m = StatusFailed"
    and "m\<lparr>Status := StatusPending, MessageID := None, SentAt := None, UpdatedAt := ts\<rparr> = m"
  then have "Status (m\<lparr>Status := StatusPending, MessageID := None, SentAt := None,
               UpdatedAt := ts\<rparr>) = Status m" by simp
  with f show False by simp
qed

text \<open>
  Claim C9. When the database executes the statement, replay-one returns no error exactly
  when the table holds a message with that id whose status is Failed; it then sets that
  message to Pending with delivery identifier and sent timestamp cleared and changes no
  other row. Otherwise (no such id, or the message is not Failed) it returns the error
  "no failed message found with id N" and the table is unchanged. A failure of the
  database call itself is reported by a different error, with the table unchanged.
\<close>

theorem replay_one:
  "(driver env = DriverOk \<longrightarrow>
      (fst (ReplayFailedByID env t i) = None
         \<longleftrightarrow> (\<exists>m \<in> set (rows t). ID m = i \<and> Status m = StatusFailed))
    \<and> ((\<exists>m \<in> set (rows t). ID m = i \<and> Status m = StatusFailed) \<longrightarrow>
         snd (ReplayFailedByID env t i) =
           t\<lparr>rows := map (\<lambda>m. if ID m = i \<and> Status m = StatusFailed
                               then m\<lparr>Status := StatusPending, MessageID := None,
                                      SentAt := None, UpdatedAt := current_timestamp env\<rparr>
                               else m) (rows t)\<rparr>)
    \<and> (\<not> (\<exists>m \<in> set (rows t). ID m = i \<and> Status m = StatusFailed) \<longrightarrow>
         ReplayFailedByID env t i =
           (Some (''no failed message found with id '' @ show_int i), t)))
   \<and> (\<forall>e. driver env = ExecError e \<longrightarrow>
        ReplayFailedByID env t i = (Some (''failed to replay failed message: '' @ e), t)
      \<and> ''failed to replay failed message: '' @ e
          \<noteq> ''no failed message found with id '' @ show_int i)"
proof -
  let ?P = "\<lambda>m. ID m = i \<and> Status m = StatusFailed"
  let ?f = "\<lambda>m. m\<lparr>Status := StatusPending, MessageID := None, SentAt := None,
                    UpdatedAt := current_timestamp env\<rparr>"
  have n: "snd (update_where ?P ?f (rows t)) = int (length (filter ?P (rows t)))"
    by (rule update_where_count) (simp add: replay_changes_row)
  have ex: "(int (length (filter ?P (rows t))) = 0) = (\<not> (\<exists>m \<in> set (rows t). ?P m))"
    by (auto simp: filter_empty_conv)
  have ok: "driver env = DriverOk \<Longrightarrow>
      ReplayFailedByID env t i =
        (if \<exists>m \<in> set (rows t). ?P m
         then (None, t\<lparr>rows := map (\<lambda>m. if ?P m then ?f m else m) (rows t)\<rparr>)
         else (Some (''no failed message found with id '' @ show_int i), t))"
    using n ex update_where_none [of "rows t" ?P ?f] update_where_rows [of ?P ?f "rows t"]
    by (simp add: ReplayFailedByID_def case_prod_unfold Let_def)
  have err: "driver env = ExecError e \<Longrightarrow>
      ReplayFailedByID env t i = (Some (''failed to replay failed message: '' @ e), t)" for e
    by (simp add: ReplayFailedByID_def)
  show ?thesis
    using ok err by auto
qed

theorem replay_one_witness:
  "driver sql_ok = DriverOk
   \<and> ReplayFailedByID sql_ok replay_table 42 =
       (None, \<lparr>rows = [sent_message, failed_message\<lparr>Status := StatusPending, UpdatedAt := 1000\<rparr>],
               AUTO_INCREMENT = 43\<rparr>)
   \<and> ReplayFailedByID sql_ok replay_table 1 =
       (Some ''no failed message found with id 1'', replay_table)
   \<and> ReplayFailedByID sql_ok replay_table 99 =
       (Some ''no failed message found with id 99'', replay_table)
   \<and> ReplayFailedByID sql_down replay_table 42 =
       (Some ''failed to replay failed message: connection refused'', replay_table)"
proof -
  have d: "driver sql_ok = DriverOk" "driver sql_down = ExecError ''connection refused''"
    by (simp_all add: sql_ok_def sql_down_def)
  have a: "\<exists>m \<in> set (rows replay_table). ID m = 42 \<and> Status m = StatusFailed"
    by (simp add: fixture_defs)
  have b: "\<not> (\<exists>m \<in> set (rows replay_table). ID m = 1 \<and> Status m = StatusFailed)"
    by (simp add: fixture_defs)
  have c: "\<not> (\<exists>m \<in> set (rows replay_table). ID m = 99 \<and> Status m = StatusFailed)"
    by (simp add: fixture_defs)
  have r42: "ReplayFailedByID sql_ok replay_table 42 =
       (None, \<lparr>rows = [sent_message, failed_message\<lparr>Status := StatusPending, UpdatedAt := 1000\<rparr>],
               AUTO_INCREMENT = 43\<rparr>)"
    using replay_one [of sql_ok replay_table 42] d a
    by (simp add: prod_eq_iff) (simp add: fixture_defs)
  show ?thesis
    using r42 replay_one [of sql_ok replay_table 1] replay_one [of sql_ok replay_table 99]
      replay_one [of sql_down replay_table 42] d b c
    by (simp add: show_int_def show_nat.simps)
qed

section \<open>The status and the delivery fields\<close>

text \<open>Each repository statement keeps a table well formed.\<close>

lemma table_okI:
  assumes "distinct (map ID (rows t))"
    and "\<And>m. m \<in> set (rows t) \<Longrightarrow> ID m < AUTO_INCREMENT t"
    and "\<And>m. m \<in> set (rows t) \<Longrightarrow> delivery_fields_match m"
  shows "table_ok t"
  using assms by (simp add: table_ok_def list_all_iff)

lemma table_okD:
  assumes "table_ok t"
  shows "distinct (map ID (rows t))"
    and "m \<in> set (rows t) \<Longrightarrow> ID m < AUTO_INCREMENT t"
    and "m \<in> set (rows t) \<Longrightarrow> delivery_fields_match m"
  using assms by (simp_all add: table_ok_def list_all_iff)

lemma table_ok_fresh: "table_ok (db fresh_world)"
  by (simp add: table_ok_def fresh_world_def)

lemma update_where_table_ok:
  assumes "table_ok t"
    and "\<And>m. m \<in> set (rows t) \<Longrightarrow> P m \<Longrightarrow> ID (f m) = ID m \<and> delivery_fields_match (f m)"
  shows "table_ok (t\<lparr>rows := fst (update_where P f (rows t))\<rparr>)"
proof (rule table_okI)
  let ?g = "\<lambda>m. if P m then f m else m"
  have "ID (?g m) = ID m" if "m \<in> set (rows t)" for m
    using assms(2) [OF that] by simp
  then have "map (ID \<circ> ?g) (rows t) = map ID (rows t)"
    by (intro map_cong) auto
  then have ids: "map ID (map ?g (rows t)) = map ID (rows t)"
    by (simp only: map_map)
  have eq: "rows (t\<lparr>rows := fst (update_where P f (rows t))\<rparr>) = map ?g (rows t)"
    by (simp add: update_where_rows)
  show "distinct (map ID (rows (t\<lparr>rows := fst (update_where P f (rows t))\<rparr>)))"
    by (simp only: eq ids table_okD(1) [OF assms(1)])
  fix m assume "m \<in> set (rows (t\<lparr>rows := fst (update_where P f (rows t))\<rparr>))"
  then obtain r where r: "r \<in> set (rows t)" "m = ?g r"
    by (auto simp: update_where_rows)
  show "ID m < AUTO_INCREMENT (t\<lparr>rows := fst (update_where P f (rows t))\<rparr>)"
    using r assms(2) [of r] table_okD(2) [OF assms(1), of r] by auto
  show "delivery_fields_match m"
    using r assms(2) [of r] table_okD(3) [OF assms(1), of r] by auto
qed

lemma MarkAsSent_table:
  "snd (MarkAsSent env t i mid ts) = t
   \<or> snd (MarkAsSent env t i mid ts) =
       t\<lparr>rows := fst (update_where (\<lambda>m. ID m = i)
           (\<lambda>m. m\<lparr>Status := StatusSent, MessageID := Some mid, SentAt := Some ts,
                  UpdatedAt := current_timestamp env\<rparr>) (rows t))\<rparr>"
  by (auto simp: MarkAsSent_def case_prod_unfold Let_def split: driver.splits)

lemma MarkAsFailed_table:
  "snd (MarkAsFailed env t i) = t
   \<or> snd (MarkAsFailed env t i) =
       t\<lparr>rows := fst (update_where (\<lambda>m. ID m = i)
           (\<lambda>m. m\<lparr>Status := StatusFailed, UpdatedAt := current_timestamp env\<rparr>) (rows t))\<rparr>"
  by (auto simp: MarkAsFailed_def split: driver.splits)

lemma ReplayFailedByID_table:
  "snd (ReplayFailedByID env t i) = t
   \<or> snd (ReplayFailedByID env t i) =
       t\<lparr>rows := fst (update_where (\<lambda>m. ID m = i \<and> Status m = StatusFailed)
           (\<lambda>m. m\<lparr>Status := StatusPending, MessageID := None, SentAt := None,
                  UpdatedAt := current_timestamp env\<rparr>) (rows t))\<rparr>"
  by (auto simp: ReplayFailedByID_def case_prod_unfold Let_def split: driver.splits)

lemma ReplayAllFailed_table:
  "snd (ReplayAllFailed env t) = t
   \<or> snd (ReplayAllFailed env t) =
       t\<lparr>rows := fst (update_where (\<lambda>m. Status m = StatusFailed)
           (\<lambda>m. m\<lparr>Status := StatusPending, MessageID := None, SentAt := None,
                  UpdatedAt := current_timestamp env\<rparr>) (rows t))\<rparr>"
  by (auto simp: ReplayAllFailed_def case_prod_unfold Let_def split: driver.splits)

lemma MarkAsSent_ok: "table_ok t \<Longrightarrow> table_ok (snd (MarkAsSent env t i mid ts))"
  using MarkAsSent_table [of env t i mid ts]
  by (auto intro!: update_where_table_ok simp: delivery_fields_match_def)

lemma MarkAsFailed_ok:
  assumes "table_ok t" and "\<And>m. m \<in> set (rows t) \<Longrightarrow> ID m = i \<Longrightarrow> Status m \<noteq> StatusSent"
  shows "table_ok (snd (MarkAsFailed env t i))"
proof -
  have "table_ok (t\<lparr>rows := fst (update_where (\<lambda>m. ID m = i)
           (\<lambda>m. m\<lparr>Status := StatusFailed, UpdatedAt := current_timestamp env\<rparr>) (rows t))\<rparr>)"
  proof (rule update_where_table_ok [OF assms(1)])
    fix m assume "m \<in> set (rows t)" "ID m = i"
    then show "ID (m\<lparr>Status := StatusFailed, UpdatedAt := current_timestamp env\<rparr>) = ID m
        \<and> delivery_fields_match (m\<lparr>Status := StatusFailed, UpdatedAt := current_timestamp env\<rparr>)"
      using assms(2) [of m] table_okD(3) [OF assms(1), of m]
      by (simp add: delivery_fields_match_def)
  qed
  then show ?thesis
    using MarkAsFailed_table [of env t i] assms(1) by auto
qed

lemma ReplayFailedByID_ok: "table_ok t \<Longrightarrow> table_ok (snd (ReplayFailedByID env t i))"
  using ReplayFailedByID_table [of env t i]
  by (auto intro!: update_where_table_ok simp: delivery_fields_match_def)

lemma ReplayAllFailed_ok: "table_ok t \<Longrightarrow> table_ok (snd (ReplayAllFailed env t))"
  using ReplayAllFailed_table [of env t]
  by (auto intro!: update_where_table_ok simp: delivery_fields_match_def)

lemma Create_table:
  "snd (Create env env2 t content phone) = t
   \<or> snd (Create env env2 t content phone) =
       \<lparr>rows = rows t @
          [\<lparr>ID = AUTO_INCREMENT t, Content = content, PhoneNumber = phone,
            Status = StatusPending, MessageID = None, SentAt = None,
            CreatedAt = current_timestamp env, UpdatedAt = current_timestamp env\<rparr>],
        AUTO_INCREMENT = AUTO_INCREMENT t + 1\<rparr>"
  by (auto simp: Create_def Let_def split: driver.splits)

lemma Create_ok:
  assumes "table_ok t"
  shows "table_ok (snd (Create env env2 t content phone))"
proof -
  let ?row = "\<lparr>ID = AUTO_INCREMENT t, Content = content, PhoneNumber = phone,
            Status = StatusPending, MessageID = None, SentAt = None,
            CreatedAt = current_timestamp env, UpdatedAt = current_timestamp env\<rparr>"
  have "table_ok \<lparr>rows = rows t @ [?row], AUTO_INCREMENT = AUTO_INCREMENT t + 1\<rparr>"
  proof (rule table_okI)
    have "AUTO_INCREMENT t \<notin> ID ` set (rows t)"
      using table_okD(2) [OF assms] by force
    then show "distinct (map ID (rows \<lparr>rows = rows t @ [?row],
                  AUTO_INCREMENT = AUTO_INCREMENT t + 1\<rparr>))"
      using table_okD(1) [OF assms] by simp
  next
    fix m assume m: "m \<in> set (rows \<lparr>rows = rows t @ [?row], AUTO_INCREMENT = AUTO_INCREMENT t + 1\<rparr>)"
    show "ID m < AUTO_INCREMENT \<lparr>rows = rows t @ [?row], AUTO_INCREMENT = AUTO_INCREMENT t + 1\<rparr>"
      using m table_okD(2) [OF assms, of m] by auto
    show "delivery_fields_match m"
      using m table_okD(3) [OF assms, of m] by (auto simp: delivery_fields_match_def)
  qed
  then show ?thesis
    using Create_table [of env env2 t content phone] assms by auto
qed


lemma deliverMessage_db:
  "db (snd (deliverMessage s env w msg sf)) = db w
   \<or> db (snd (deliverMessage s env w msg sf)) = snd (MarkAsFailed (mark env) (db w) (ID msg))
   \<or> (\<exists>mid. db (snd (deliverMessage s env w msg sf))
          = snd (MarkAsSent (mark env) (db w) (ID msg) mid (now env)))"
  by (auto simp: deliverMessage_def repo_MarkAsFailed_def repo_MarkAsSent_def SendMessage_def
      CacheSentMessage_def Let_def case_prod_unfold
      split: if_splits option.splits sum.splits)

lemma deliverMessage_ok:
  assumes "table_ok (db w)"
    and "\<And>m. m \<in> set (rows (db w)) \<Longrightarrow> ID m = ID msg \<Longrightarrow> Status m \<noteq> StatusSent"
  shows "table_ok (db (snd (deliverMessage s env w msg sf)))"
  using deliverMessage_db [of s env w msg sf] assms(1)
    MarkAsFailed_ok [OF assms(1), of "ID msg" "mark env"] assms(2)
    MarkAsSent_ok [OF assms(1), of "mark env" "ID msg" _ "now env"]
  by auto

lemma update_where_other:
  assumes "r \<in> set (fst (update_where (\<lambda>m. ID m = i) f ms))" and "\<And>m. ID (f m) = ID m"
    and "ID r \<noteq> i"
  shows "r \<in> set ms"
  using assms by (auto simp: update_where_rows split: if_splits)

lemma deliverMessage_other_rows:
  assumes "r \<in> set (rows (db (snd (deliverMessage s env w msg sf))))" and "ID r \<noteq> ID msg"
  shows "r \<in> set (rows (db w))"
proof -
  have f: "r \<in> set (rows (snd (MarkAsFailed (mark env) (db w) (ID msg)))) \<Longrightarrow> ?thesis"
    using MarkAsFailed_table [of "mark env" "db w" "ID msg"] assms(2)
    by (auto dest!: update_where_other)
  have g: "r \<in> set (rows (snd (MarkAsSent (mark env) (db w) (ID msg) mid (now env)))) \<Longrightarrow> ?thesis"
    for mid
    using MarkAsSent_table [of "mark env" "db w" "ID msg" mid "now env"] assms(2)
    by (auto dest!: update_where_other)
  show ?thesis
    using deliverMessage_db [of s env w msg sf] assms(1) f g by auto
qed

lemma deliver_batch_ok:
  assumes "table_ok (db w)" and "distinct (map ID msgs)"
    and "\<And>m r. m \<in> set msgs \<Longrightarrow> r \<in> set (rows (db w)) \<Longrightarrow> ID r = ID m
           \<Longrightarrow> Status r = StatusPending"
  shows "table_ok (db (snd (deliver_batch s envs rate msgs w)))"
  using assms
proof (induction msgs arbitrary: w envs)
  case Nil
  then show ?case by simp
next
  case (Cons msg msgs)
  obtain x w1 where d: "deliver s (envs 0) w msg rate = (x, w1)"
    by (cases "deliver s (envs 0) w msg rate")
  then have w1: "w1 = snd (deliverMessage s (envs 0) w msg (draw (envs 0) < rate))"
    by (simp add: deliver_def)
  have ok1: "table_ok (db w1)"
    unfolding w1
  proof (rule deliverMessage_ok [OF Cons.prems(1)])
    fix m assume "m \<in> set (rows (db w))" "ID m = ID msg"
    then show "Status m \<noteq> StatusSent"
      using Cons.prems(3) [of msg m] by simp
  qed
  have rest: "Status r = StatusPending"
    if "m \<in> set msgs" "r \<in> set (rows (db w1))" "ID r = ID m" for m r
  proof -
    have "ID msg \<notin> ID ` set msgs" using Cons.prems(2) by simp
    moreover have "ID m \<in> ID ` set msgs" using that(1) by (rule imageI)
    ultimately have "ID m \<noteq> ID msg" by metis
    then have "r \<in> set (rows (db w))"
      using deliverMessage_other_rows [of r s "envs 0" w msg] that(2,3) w1 by simp
    then show ?thesis using Cons.prems(3) [of m r] that by simp
  qed
  have ih: "table_ok (db (snd (deliver_batch s (\<lambda>k. envs (Suc k)) rate msgs w1)))"
    using Cons.IH [OF ok1 _ rest] Cons.prems(2) by simp
  show ?case
    using d ok1 ih by (auto split: ret.splits prod.splits)
qed

lemma GetUnsent_rows:
  assumes "GetUnsent env t limit = Inr msgs"
  shows "set msgs \<subseteq> {m \<in> set (rows t). Status m = StatusPending}"
proof -
  have "msgs = take (nat limit)
          (sort_key CreatedAt (filter (\<lambda>m. Status m = StatusPending) (rows t)))"
    using assms by (auto simp: GetUnsent_def split: driver.splits if_splits)
  then have "set msgs \<subseteq> set (sort_key CreatedAt (filter (\<lambda>m. Status m = StatusPending) (rows t)))"
    using set_take_subset by metis
  then show ?thesis by auto
qed

lemma GetUnsent_distinct:
  assumes "GetUnsent env t limit = Inr msgs" and "distinct (map ID (rows t))"
  shows "distinct (map ID msgs)"
proof -
  let ?p = "filter (\<lambda>m. Status m = StatusPending) (rows t)"
  have m: "msgs = take (nat limit) (sort_key CreatedAt ?p)"
    using assms(1) by (auto simp: GetUnsent_def split: driver.splits if_splits)
  have "distinct (map ID ?p)"
    using assms(2) by (rule distinct_map_filter)
  then have "distinct ?p" "inj_on ID (set ?p)"
    by (simp_all add: distinct_map)
  then have "distinct (sort_key CreatedAt ?p)" "inj_on ID (set (sort_key CreatedAt ?p))"
    by simp_all
  then have "distinct (map ID (sort_key CreatedAt ?p))"
    by (simp add: distinct_map)
  then show ?thesis
    unfolding m by (simp add: take_map [symmetric])
qed

lemma ProcessUnsentMessages_ok:
  assumes "table_ok (db w)"
  shows "table_ok (db (snd (ProcessUnsentMessages s env w rate)))"
proof (cases "GetUnsent (fetch env) (db w) (BatchSize (config s))")
  case (Inl e)
  then show ?thesis using assms by (simp add: ProcessUnsentMessages_def)
next
  case (Inr msgs)
  have pend: "Status r = StatusPending"
    if "m \<in> set msgs" "r \<in> set (rows (db w))" "ID r = ID m" for m r
  proof -
    have m: "m \<in> set (rows (db w))" "Status m = StatusPending"
      using GetUnsent_rows [OF Inr] that(1) by auto
    have "inj_on ID (set (rows (db w)))"
      using table_okD(1) [OF assms] by (simp add: distinct_map)
    then have "r = m" using that(2,3) m(1) by (auto dest: inj_onD)
    then show ?thesis using m(2) by simp
  qed
  have "table_ok (db (snd (deliver_batch s (deliveries env) rate msgs w)))"
    using deliver_batch_ok [OF assms GetUnsent_distinct [OF Inr table_okD(1) [OF assms]] pend]
    by simp
  then show ?thesis
    using Inr assms by (auto simp: ProcessUnsentMessages_def split: ret.splits prod.splits)
qed

lemma apply_op_ok:
  assumes "table_ok (db w)" and "admissible x w"
  shows "table_ok (db (apply_op s x w))"
proof (cases x)
  case (OpCreateMessage content phone env env2)
  then show ?thesis
    using assms(1) Create_ok [OF assms(1), of env env2 content phone]
    by (simp add: CreateMessage_def repo_Create_def case_prod_unfold Let_def)
next
  case (OpProcessUnsentMessages rate env)
  then show ?thesis using ProcessUnsentMessages_ok [OF assms(1)] by simp
next
  case (OpDeliver msg rate env)
  have "Status m \<noteq> StatusSent" if "m \<in> set (rows (db w))" "ID m = ID msg" for m
  proof -
    have "inj_on ID (set (rows (db w)))"
      using table_okD(1) [OF assms(1)] by (simp add: distinct_map)
    then have "m = msg" using that assms(2) OpDeliver by (auto dest: inj_onD)
    then show ?thesis using assms(2) OpDeliver by simp
  qed
  then show ?thesis
    using OpDeliver deliverMessage_ok [OF assms(1), of msg s env] by (simp add: deliver_def)
next
  case (OpReplayFailedMessage i env)
  then show ?thesis
    using ReplayFailedByID_ok [OF assms(1), of env i]
    by (simp add: ReplayFailedMessage_def case_prod_unfold Let_def)
next
  case (OpReplayAllFailedMessages env)
  then show ?thesis
    using ReplayAllFailed_ok [OF assms(1), of env]
    by (simp add: ReplayAllFailedMessages_def case_prod_unfold Let_def)
qed

lemma run_ok:
  assumes "table_ok (db w)" and "admissible_run s ops w"
  shows "table_ok (db (run s ops w))"
  using assms
proof (induction ops arbitrary: w)
  case Nil
  then show ?case by simp
next
  case (Cons x xs)
  then show ?case using apply_op_ok [of w x s] by simp
qed

text \<open>
  Claim C1. Starting from the empty table, after any sequence of the public operations
  (message creation, a batch pass, a delivery of a message the table holds as Pending,
  replay-one, replay-all), whatever the driver, the transport and the cache do, every
  stored message has status Sent if and only if its delivery identifier and its sent
  timestamp are both non-null; a message that is not Sent has both null. Creation inserts
  a Pending row with both null, mark-sent writes Sent with both fields, mark-failed leaves
  the fields of a Pending row as they are, and replay writes Pending with both null.
\<close>

theorem sent_iff_delivery_fields:
  assumes "admissible_run s ops fresh_world"
    and "m \<in> set (rows (db (run s ops fresh_world)))"
  shows "(Status m = StatusSent \<longleftrightarrow> MessageID m \<noteq> None \<and> SentAt m \<noteq> None)
       \<and> (Status m \<noteq> StatusSent \<longrightarrow> MessageID m = None \<and> SentAt m = None)"
  using table_okD(3) [OF run_ok [OF table_ok_fresh assms(1)] assms(2)]
  by (auto simp: delivery_fields_match_def split: if_splits)



theorem sent_iff_delivery_fields_witness:
  "admissible_run test_service test_ops fresh_world
   \<and> rows (db (run test_service test_ops fresh_world)) =
       [\<lparr>ID = 1, Content = ''Hello'', PhoneNumber = ''+905551234567'',
         Status = StatusSent, MessageID = Some ''msg-long'', SentAt = Some 1001,
         CreatedAt = 1000, UpdatedAt = 1000\<rparr>,
        \<lparr>ID = 2, Content = ''Fail'', PhoneNumber = ''+905551234567'',
         Status = StatusFailed, MessageID = None, SentAt = None,
         CreatedAt = 1000, UpdatedAt = 1000\<rparr>]"
proof -
  have a: "admissible_run test_service test_ops fresh_world"
    by (simp add: test_ops_def test_pass2_def fixture_defs run_defs deliver_defs)
  have r: "rows (db (run test_service test_ops fresh_world)) =
       [\<lparr>ID = 1, Content = ''Hello'', PhoneNumber = ''+905551234567'',
         Status = StatusSent, MessageID = Some ''msg-long'', SentAt = Some 1001,
         CreatedAt = 1000, UpdatedAt = 1000\<rparr>,
        \<lparr>ID = 2, Content = ''Fail'', PhoneNumber = ''+905551234567'',
         Status = StatusFailed, MessageID = None, SentAt = None,
         CreatedAt = 1000, UpdatedAt = 1000\<rparr>]"
    by (simp add: test_ops_def test_pass2_def fixture_defs run_defs deliver_defs)
  show ?thesis
    using a r sent_iff_delivery_fields [OF a, of
        "\<lparr>ID = 1, Content = ''Hello'', PhoneNumber = ''+905551234567'',
         Status = StatusSent, MessageID = Some ''msg-long'', SentAt = Some 1001,
         CreatedAt = 1000, UpdatedAt = 1000\<rparr>"]
    by simp
qed

end
